theory Spec2Isabelle
  imports Complex_Main
begin

section \<open>The Matrix class of matrix.py\<close>

text \<open>
  A \<^verbatim>\<open>Matrix\<close> object has one field, \<^verbatim>\<open>_list\<close>: a Python list of rows, each row
  a Python list of numbers. The model takes the value of that field as the matrix.
  Elements are Python numbers; they are modelled by exact rationals (integer arithmetic
  is exact in Python; the one true division of the source, \<^verbatim>\<open>1/det\<close> in
  \<^verbatim>\<open>inverse\<close>, is modelled by exact division).

  Every exception the source can raise is a value of \<open>error\<close>; a function that can
  raise returns \<open>error + 'a\<close>, with \<open>Inl\<close> for the exception.
\<close>

datatype error = IndexError | ValueError | TypeError

type_synonym matrix = "rat list list"

subsection \<open>Python list indexing\<close>

text \<open>
  \<^verbatim>\<open>xs[i]\<close> on a Python list: a negative index counts from the end, and an index
  outside the list raises \<^verbatim>\<open>IndexError\<close>. \<open>py_pos n i\<close> is the position that
  index \<open>i\<close> denotes in a list of length \<open>n\<close>.
\<close>

definition py_pos :: "nat \<Rightarrow> int \<Rightarrow> error + nat" where
  "py_pos n i =
     (let k = (if i < 0 then i + int n else i)
      in if 0 \<le> k \<and> k < int n then Inr (nat k) else Inl IndexError)"

definition py_index :: "'a list \<Rightarrow> int \<Rightarrow> error + 'a" where
  "py_index xs i = (case py_pos (length xs) i of Inl e \<Rightarrow> Inl e | Inr k \<Rightarrow> Inr (xs ! k))"

text \<open>
  \<open>collect\<close> evaluates a comprehension whose elements may raise: the first exception,
  in order, is the result. \<open>py_sum\<close> is \<^verbatim>\<open>sum(...)\<close> over such a generator.
\<close>

fun collect :: "(error + 'a) list \<Rightarrow> error + 'a list" where
  "collect [] = Inr []"
| "collect (x # xs) =
     (case x of Inl e \<Rightarrow> Inl e
      | Inr v \<Rightarrow> (case collect xs of Inl e \<Rightarrow> Inl e | Inr vs \<Rightarrow> Inr (v # vs)))"

definition py_sum :: "(error + rat) list \<Rightarrow> error + rat" where
  "py_sum xs = (case collect xs of Inl e \<Rightarrow> Inl e | Inr vs \<Rightarrow> Inr (sum_list vs))"

subsection \<open>Properties and element access\<close>

text \<open>
  \<^verbatim>\<open>rows\<close> is \<^verbatim>\<open>len(self._list)\<close>; \<^verbatim>\<open>columns\<close> is \<^verbatim>\<open>len(self._list[0])\<close>, which
  raises \<^verbatim>\<open>IndexError\<close> on an empty \<^verbatim>\<open>_list\<close>; \<^verbatim>\<open>size\<close> is the pair, and
  \<^verbatim>\<open>is_square\<close> compares the two.
\<close>

definition rows :: "matrix \<Rightarrow> nat" where
  "rows m = length m"

definition columns :: "matrix \<Rightarrow> error + nat" where
  "columns m = (case py_index m 0 of Inl e \<Rightarrow> Inl e | Inr row \<Rightarrow> Inr (length row))"

definition size_m :: "matrix \<Rightarrow> error + nat \<times> nat" where
  "size_m m = (case columns m of Inl e \<Rightarrow> Inl e | Inr n \<Rightarrow> Inr (rows m, n))"

definition is_square :: "matrix \<Rightarrow> error + bool" where
  "is_square m = (case columns m of Inl e \<Rightarrow> Inl e | Inr n \<Rightarrow> Inr (rows m = n))"

text \<open>
  \<^verbatim>\<open>__getitem__\<close> with two integers is \<^verbatim>\<open>self._list[i][j]\<close>; \<^verbatim>\<open>__setitem__\<close> is
  \<^verbatim>\<open>self._list[i][j] = val\<close>. Rows are taken to be distinct list objects, as
  \<^verbatim>\<open>zero\<close> creates them.
\<close>

definition getitem :: "matrix \<Rightarrow> int \<Rightarrow> int \<Rightarrow> error + rat" where
  "getitem m i j = (case py_index m i of Inl e \<Rightarrow> Inl e | Inr row \<Rightarrow> py_index row j)"

definition setitem :: "matrix \<Rightarrow> int \<Rightarrow> int \<Rightarrow> rat \<Rightarrow> error + matrix" where
  "setitem m i j v =
     (case py_pos (length m) i of Inl e \<Rightarrow> Inl e
      | Inr r \<Rightarrow>
          (case py_pos (length (m ! r)) j of Inl e \<Rightarrow> Inl e
           | Inr c \<Rightarrow> Inr (m[r := (m ! r)[c := v]])))"

subsection \<open>Submatrix, determinant and minor\<close>

text \<open>
  \<^verbatim>\<open>submatrix(delr, delc)\<close> is the nested comprehension
  \<^verbatim>\<open>[[self[i, j] for j in range(self.columns) if j not in delc]
     for i in range(self.rows) if i not in delr]\<close>, wrapped by \<^verbatim>\<open>raw\<close>.
\<close>

definition raw :: "rat list list \<Rightarrow> matrix" where
  "raw rs = rs"

definition submatrix :: "matrix \<Rightarrow> int list \<Rightarrow> int list \<Rightarrow> error + matrix" where
  "submatrix m delr delc =
     (case collect
        (map (\<lambda>i. case columns m of Inl e \<Rightarrow> Inl e
                   | Inr n \<Rightarrow> collect (map (\<lambda>j. getitem m (int i) (int j))
                                (filter (\<lambda>j. int j \<notin> set delc) [0..<n])))
           (filter (\<lambda>i. int i \<notin> set delr) [0..<rows m]))
      of Inl e \<Rightarrow> Inl e | Inr rs \<Rightarrow> Inr (raw rs))"

text \<open>
  \<^verbatim>\<open>determinant\<close> and \<^verbatim>\<open>minor\<close> call each other in the source. The model defines
  \<open>determinant\<close> with the body of \<^verbatim>\<open>minor(0, c)\<close> written in place, and \<open>minor\<close>
  after it; \<open>determinant_general\<close> below gives the general case in terms of \<open>minor\<close>.
  \<^verbatim>\<open>(-1)**(c%2)\<close> is the sign.
\<close>

function determinant :: "matrix \<Rightarrow> error + rat" where
  "determinant m =
     (case is_square m of Inl e \<Rightarrow> Inl e
      | Inr sq \<Rightarrow>
          if \<not> sq then Inl ValueError
          else if size_m m = Inr (2, 2) then
            (case getitem m 0 0 of Inl e \<Rightarrow> Inl e
             | Inr a \<Rightarrow>
                 (case getitem m 1 1 of Inl e \<Rightarrow> Inl e
                  | Inr d \<Rightarrow>
                      (case getitem m 0 1 of Inl e \<Rightarrow> Inl e
                       | Inr b \<Rightarrow>
                           (case getitem m 1 0 of Inl e \<Rightarrow> Inl e
                            | Inr c \<Rightarrow> Inr (a * d - b * c)))))
          else
            (case columns m of Inl e \<Rightarrow> Inl e
             | Inr n \<Rightarrow>
                 py_sum (map (\<lambda>c. case getitem m 0 (int c) of Inl e \<Rightarrow> Inl e
                                  | Inr x \<Rightarrow>
                                      (case submatrix m [0] [int c] of Inl e \<Rightarrow> Inl e
                                       | Inr s \<Rightarrow>
                                           (case determinant s of Inl e \<Rightarrow> Inl e
                                            | Inr d \<Rightarrow> Inr (x * d * (- 1) ^ (c mod 2)))))
                          [0..<n])))"
  by pat_completeness auto
termination
proof (relation "measure length")
  show "wf (measure length)" by simp
next
  fix m :: matrix and sq n c x s
  assume sq: "is_square m = Inr sq" and sub: "submatrix m [0] [int c] = Inr s"
  have len: "collect xs = Inr vs \<Longrightarrow> length vs = length xs"
    for xs :: "(error + rat list) list" and vs
    by (induction xs arbitrary: vs) (auto split: sum.splits)
  from sq have "m \<noteq> []"
    by (auto simp: is_square_def columns_def py_index_def py_pos_def split: sum.splits)
  then have "length (filter (\<lambda>i. int i \<notin> set [0]) [0..<rows m]) < length [0..<rows m]"
    by (intro length_filter_less [of 0]) (auto simp: rows_def)
  moreover from sub have "length s = length (filter (\<lambda>i. int i \<notin> set [0]) [0..<rows m])"
    by (auto simp: submatrix_def raw_def split: sum.splits dest!: len)
  ultimately show "(s, m) \<in> measure length"
    by (simp add: rows_def)
qed

definition minor :: "matrix \<Rightarrow> int \<Rightarrow> int \<Rightarrow> error + rat" where
  "minor m r c = (case submatrix m [r] [c] of Inl e \<Rightarrow> Inl e | Inr s \<Rightarrow> determinant s)"

declare determinant.simps [simp del]

subsection \<open>Construction, fill and copy\<close>

text \<open>
  \<^verbatim>\<open>zero(m, n)\<close> is \<^verbatim>\<open>raw([[0]*n for _ in range(m)])\<close>; a negative count gives
  an empty list in Python, as \<open>nat\<close> does here.
\<close>

definition zero_m :: "int \<Rightarrow> int \<Rightarrow> matrix" where
  "zero_m m n = raw (replicate (nat m) (replicate (nat n) 0))"

text \<open>
  \<^verbatim>\<open>fill(func)\<close> writes \<^verbatim>\<open>self[r, c] = func(r, c)\<close> for every position, row by
  row, and returns \<^verbatim>\<open>self\<close>. It mutates the object, and \<^verbatim>\<open>func\<close> may read the
  object that is being filled (\<^verbatim>\<open>__imul__\<close> does), so the model passes the state: the
  function takes the contents of \<^verbatim>\<open>self\<close> and gives the exception raised, if any,
  with the contents at that moment; \<open>func\<close> receives the contents of \<^verbatim>\<open>self\<close> at
  the time of its call. \<^verbatim>\<open>range(self.rows)\<close> is evaluated once, \<^verbatim>\<open>self.columns\<close> at
  each row.
\<close>

fun fill_cols ::
  "(matrix \<Rightarrow> nat \<Rightarrow> nat \<Rightarrow> error + rat) \<Rightarrow> nat \<Rightarrow> nat list \<Rightarrow> matrix \<Rightarrow> error option \<times> matrix"
where
  "fill_cols func r [] m = (None, m)"
| "fill_cols func r (c # cs) m =
     (case func m r c of Inl e \<Rightarrow> (Some e, m)
      | Inr v \<Rightarrow>
          (case setitem m (int r) (int c) v of Inl e \<Rightarrow> (Some e, m)
           | Inr m' \<Rightarrow> fill_cols func r cs m'))"

fun fill_rows ::
  "(matrix \<Rightarrow> nat \<Rightarrow> nat \<Rightarrow> error + rat) \<Rightarrow> nat list \<Rightarrow> matrix \<Rightarrow> error option \<times> matrix"
where
  "fill_rows func [] m = (None, m)"
| "fill_rows func (r # rs) m =
     (case columns m of Inl e \<Rightarrow> (Some e, m)
      | Inr n \<Rightarrow>
          (case fill_cols func r [0..<n] m of
             (Some e, m') \<Rightarrow> (Some e, m')
           | (None, m') \<Rightarrow> fill_rows func rs m'))"

definition fill :: "matrix \<Rightarrow> (matrix \<Rightarrow> nat \<Rightarrow> nat \<Rightarrow> error + rat) \<Rightarrow> error option \<times> matrix" where
  "fill m func = fill_rows func [0..<rows m] m"

text \<open>
  The value of a call \<^verbatim>\<open>x.fill(func)\<close> used as an expression: \<^verbatim>\<open>x\<close> as it is after
  the loop, or the exception.
\<close>

definition returned :: "error option \<times> matrix \<Rightarrow> error + matrix" where
  "returned res = (case res of (Some e, _) \<Rightarrow> Inl e | (None, m) \<Rightarrow> Inr m)"

text \<open>
  \<^verbatim>\<open>__init__(rows)\<close>: the empty \<^verbatim>\<open>_list\<close> when \<^verbatim>\<open>rows\<close> or its first element is
  empty, else a zero matrix of the size of \<^verbatim>\<open>rows\<close> and of its first element, filled
  with \<^verbatim>\<open>rows[r][c]\<close>.
\<close>

definition Matrix_init :: "rat list list \<Rightarrow> error + matrix" where
  "Matrix_init rs =
     (case rs of [] \<Rightarrow> Inr []
      | row0 # _ \<Rightarrow>
          if length row0 = 0 then Inr []
          else returned
                 (fill (zero_m (int (length rs)) (int (length row0)))
                    (\<lambda>_ r c. case py_index rs (int r) of Inl e \<Rightarrow> Inl e
                             | Inr row \<Rightarrow> py_index row (int c))))"

fun identity_loop :: "nat list \<Rightarrow> matrix \<Rightarrow> error + matrix" where
  "identity_loop [] m = Inr m"
| "identity_loop (i # is) m =
     (case setitem m (int i) (int i) 1 of Inl e \<Rightarrow> Inl e | Inr m' \<Rightarrow> identity_loop is m')"

definition identity :: "int \<Rightarrow> error + matrix" where
  "identity n = identity_loop [0..<nat n] (zero_m n n)"

definition copy :: "matrix \<Rightarrow> error + matrix" where
  "copy m =
     (case size_m m of Inl e \<Rightarrow> Inl e
      | Inr (r, c) \<Rightarrow>
          returned (fill (zero_m (int r) (int c)) (\<lambda>_ r c. getitem m (int r) (int c))))"

subsection \<open>Scalar and matrix multiplication\<close>

text \<open>
  \<^verbatim>\<open>__imul__(k)\<close> fills \<^verbatim>\<open>self\<close> with \<^verbatim>\<open>self[r, c]*k\<close>, reading the object it
  writes; \<^verbatim>\<open>__mul__\<close> does so on a copy. \<^verbatim>\<open>__matmul__\<close> checks the shapes and fills
  a new zero matrix with the dot products.
\<close>

definition imul :: "matrix \<Rightarrow> rat \<Rightarrow> error option \<times> matrix" where
  "imul m k =
     fill m (\<lambda>self r c. case getitem self (int r) (int c) of Inl e \<Rightarrow> Inl e
                      | Inr x \<Rightarrow> Inr (x * k))"

definition mul :: "matrix \<Rightarrow> rat \<Rightarrow> error + matrix" where
  "mul m k = (case copy m of Inl e \<Rightarrow> Inl e | Inr new \<Rightarrow> returned (imul new k))"

definition matmul :: "matrix \<Rightarrow> matrix \<Rightarrow> error + matrix" where
  "matmul m other =
     (case columns m of Inl e \<Rightarrow> Inl e
      | Inr n \<Rightarrow>
          if n \<noteq> rows other then Inl ValueError
          else
            (case columns other of Inl e \<Rightarrow> Inl e
             | Inr k \<Rightarrow>
                 returned
                   (fill (zero_m (int (rows m)) (int k))
                      (\<lambda>_ r c.
                         py_sum (map (\<lambda>i. case getitem m (int r) (int i) of Inl e \<Rightarrow> Inl e
                                          | Inr x \<Rightarrow>
                                              (case getitem other (int i) (int c) of
                                                 Inl e \<Rightarrow> Inl e
                                               | Inr y \<Rightarrow> Inr (x * y)))
                                  [0..<rows other])))))"

subsection \<open>Transpose, cofactor, adjugate, inverse\<close>

definition transpose_m :: "matrix \<Rightarrow> error + matrix" where
  "transpose_m m =
     (case columns m of Inl e \<Rightarrow> Inl e
      | Inr n \<Rightarrow>
          returned (fill (zero_m (int n) (int (rows m))) (\<lambda>_ r c. getitem m (int c) (int r))))"

definition cofactor :: "matrix \<Rightarrow> error + matrix" where
  "cofactor m =
     (case size_m m of Inl e \<Rightarrow> Inl e
      | Inr (r, c) \<Rightarrow>
          returned
            (fill (zero_m (int r) (int c))
               (\<lambda>_ r c. case getitem m (int r) (int c) of Inl e \<Rightarrow> Inl e
                        | Inr x \<Rightarrow> Inr (x * (- 1) ^ ((r + c) mod 2)))))"

definition adjugate :: "matrix \<Rightarrow> error + matrix" where
  "adjugate m = (case cofactor m of Inl e \<Rightarrow> Inl e | Inr cf \<Rightarrow> transpose_m cf)"

text \<open>
  \<^verbatim>\<open>inverse\<close> returns \<^verbatim>\<open>None\<close> when \<^verbatim>\<open>det == 0\<close>, where \<^verbatim>\<open>det\<close> is the
  determinant of a square matrix and 0 otherwise; else the adjugate of the matrix of
  minors times \<^verbatim>\<open>1/det\<close>.
\<close>

definition inverse_m :: "matrix \<Rightarrow> error + matrix option" where
  "inverse_m m =
     (case is_square m of Inl e \<Rightarrow> Inl e
      | Inr sq \<Rightarrow>
          (case (if sq then determinant m else Inr 0) of Inl e \<Rightarrow> Inl e
           | Inr det \<Rightarrow>
               if det = 0 then Inr None
               else
                 (case size_m m of Inl e \<Rightarrow> Inl e
                  | Inr (r, c) \<Rightarrow>
                      (case returned (fill (zero_m (int r) (int c))
                                        (\<lambda>_ r c. minor m (int r) (int c))) of
                         Inl e \<Rightarrow> Inl e
                       | Inr minors \<Rightarrow>
                           (case adjugate minors of Inl e \<Rightarrow> Inl e
                            | Inr adj \<Rightarrow>
                                (case mul adj (1 / det) of Inl e \<Rightarrow> Inl e
                                 | Inr res \<Rightarrow> Inr (Some res)))))))"

subsection \<open>Exponentiation\<close>

text \<open>
  \<^verbatim>\<open>__pow__(p)\<close>. The class defines no \<^verbatim>\<open>__imatmul__\<close>, so \<^verbatim>\<open>new @= self\<close> is
  \<^verbatim>\<open>new = new @ self\<close>; when \<^verbatim>\<open>inverse\<close> has returned \<^verbatim>\<open>None\<close> that product
  raises \<^verbatim>\<open>TypeError\<close>.
\<close>

function pow_loop :: "int \<Rightarrow> matrix option \<Rightarrow> matrix \<Rightarrow> error + matrix option" where
  "pow_loop p new m =
     (if p > 1 then
        (case new of None \<Rightarrow> Inl TypeError
         | Some n \<Rightarrow>
             (case matmul n m of Inl e \<Rightarrow> Inl e
              | Inr n' \<Rightarrow> pow_loop (p - 1) (Some n') m))
      else Inr new)"
  by pat_completeness auto
termination
  by (relation "measure (\<lambda>(p, new, m). nat p)") auto

declare pow_loop.simps [simp del]

definition pow :: "matrix \<Rightarrow> int \<Rightarrow> error + matrix option" where
  "pow m p =
     (case is_square m of Inl e \<Rightarrow> Inl e
      | Inr sq \<Rightarrow>
          if \<not> sq \<and> p \<notin> {1, - 1} then Inl ValueError
          else if p = 0 then
            (case identity (int (rows m)) of Inl e \<Rightarrow> Inl e | Inr i \<Rightarrow> Inr (Some i))
          else
            (case copy m of Inl e \<Rightarrow> Inl e
             | Inr new \<Rightarrow>
                 if p < 0 then
                   (case inverse_m new of Inl e \<Rightarrow> Inl e
                    | Inr new' \<Rightarrow> pow_loop (- p) new' m)
                 else pow_loop p (Some new) m))"

subsection \<open>Predicates\<close>

text \<open>
  \<^verbatim>\<open>is_invertible\<close> is \<^verbatim>\<open>not self.is_square or self.determinant == 0\<close>. The second
  operand does not call \<^verbatim>\<open>determinant\<close>: it compares the bound method itself with 0,
  and a method object equals no number.
\<close>

definition method_eq :: "(matrix \<Rightarrow> error + rat) \<Rightarrow> rat \<Rightarrow> bool" where
  "method_eq meth x = False"

definition is_invertible :: "matrix \<Rightarrow> error + bool" where
  "is_invertible m =
     (case is_square m of Inl e \<Rightarrow> Inl e
      | Inr sq \<Rightarrow> Inr (if \<not> sq then True else method_eq determinant 0))"

definition is_singular :: "matrix \<Rightarrow> error + bool" where
  "is_singular m = (case is_invertible m of Inl e \<Rightarrow> Inl e | Inr b \<Rightarrow> Inr (\<not> b))"

text \<open>
  \<^verbatim>\<open>is_echelon\<close>: the inner loop over the columns of row \<open>r\<close> either returns
  \<^verbatim>\<open>False\<close> from the property, or breaks at the first non-zero entry, or ends
  without a break (the \<^verbatim>\<open>else\<close> of the \<^verbatim>\<open>for\<close>, which sets \<^verbatim>\<open>zero_row\<close>). The
  outer loop runs over \<^verbatim>\<open>range(self.rows-1)\<close>.
\<close>

datatype row_scan = Return_False | Break | No_break

fun scan_row :: "matrix \<Rightarrow> bool \<Rightarrow> nat \<Rightarrow> nat list \<Rightarrow> error + row_scan" where
  "scan_row m zero_row r [] = Inr No_break"
| "scan_row m zero_row r (c # cs) =
     (case getitem m (int r) (int c) of Inl e \<Rightarrow> Inl e
      | Inr x \<Rightarrow>
          if x \<noteq> 0 then
            (if zero_row then Inr Return_False
             else
               (case getitem m (int r + 1) (int c) of Inl e \<Rightarrow> Inl e
                | Inr y \<Rightarrow> if y \<noteq> 0 then Inr Return_False else Inr Break))
          else scan_row m zero_row r cs)"

fun echelon_rows :: "matrix \<Rightarrow> bool \<Rightarrow> nat list \<Rightarrow> error + bool" where
  "echelon_rows m zero_row [] = Inr True"
| "echelon_rows m zero_row (r # rs) =
     (case columns m of Inl e \<Rightarrow> Inl e
      | Inr n \<Rightarrow>
          (case scan_row m zero_row r [0..<n] of Inl e \<Rightarrow> Inl e
           | Inr Return_False \<Rightarrow> Inr False
           | Inr Break \<Rightarrow> echelon_rows m zero_row rs
           | Inr No_break \<Rightarrow> echelon_rows m True rs))"

definition is_echelon :: "matrix \<Rightarrow> error + bool" where
  "is_echelon m = echelon_rows m False [0..<nat (int (rows m) - 1)]"

subsection \<open>Slicing\<close>

text \<open>
  \<^verbatim>\<open>__getitem__\<close> with two slices. A slice is its \<^verbatim>\<open>start\<close> and \<^verbatim>\<open>stop\<close>, each
  \<^verbatim>\<open>None\<close> or an integer (the source never reads \<^verbatim>\<open>step\<close>). The dimension is
  read only where the source reads it: for a negative start, and for an absent or
  negative stop; \<^verbatim>\<open>self.columns\<close> can raise there.
\<close>

type_synonym slice = "int option \<times> int option"

definition slice_start :: "int option \<Rightarrow> (error + nat) \<Rightarrow> error + int" where
  "slice_start start extent =
     (case start of None \<Rightarrow> Inr 0
      | Some k \<Rightarrow>
          if k < 0 then (case extent of Inl e \<Rightarrow> Inl e | Inr n \<Rightarrow> Inr (k + int n))
          else Inr k)"

definition slice_stop :: "int option \<Rightarrow> (error + nat) \<Rightarrow> error + int" where
  "slice_stop stop extent =
     (case stop of None \<Rightarrow> (case extent of Inl e \<Rightarrow> Inl e | Inr n \<Rightarrow> Inr (int n))
      | Some k \<Rightarrow>
          if k < 0 then (case extent of Inl e \<Rightarrow> Inl e | Inr n \<Rightarrow> Inr (k + int n))
          else Inr k)"

definition getitem_slice :: "matrix \<Rightarrow> slice \<Rightarrow> slice \<Rightarrow> error + matrix" where
  "getitem_slice m i j =
     (case slice_start (fst i) (Inr (rows m)) of Inl e \<Rightarrow> Inl e
      | Inr istart \<Rightarrow>
     (case slice_stop (snd i) (Inr (rows m)) of Inl e \<Rightarrow> Inl e
      | Inr istop \<Rightarrow>
     (case slice_start (fst j) (columns m) of Inl e \<Rightarrow> Inl e
      | Inr jstart \<Rightarrow>
     (case slice_stop (snd j) (columns m) of Inl e \<Rightarrow> Inl e
      | Inr jstop \<Rightarrow>
          if istop - istart < 1 \<or> jstop - jstart < 1 then Matrix_init []
          else returned
                 (fill (zero_m (istop - istart) (jstop - jstart))
                    (\<lambda>_ r c. getitem m (istart + int r) (jstart + int c)))))))"

subsection \<open>Objects: in-place addition and addition\<close>

text \<open>
  \<^verbatim>\<open>__iadd__\<close> mutates \<^verbatim>\<open>self\<close> while reading \<^verbatim>\<open>other\<close>, which may be the same
  object, and \<^verbatim>\<open>__add__\<close> is \<^verbatim>\<open>self.copy().__iadd__(other)\<close>. What they do to
  their operands is stated on a store: the list of the \<^verbatim>\<open>_list\<close> contents of all
  Matrix objects, an object being its position in the store. \<^verbatim>\<open>raw\<close> creates an
  object; \<^verbatim>\<open>fill\<close> on object \<open>a\<close> is the loop above run on the contents of \<open>a\<close>,
  with \<^verbatim>\<open>func\<close> reading the store in which \<open>a\<close> has its current contents. A
  function gives its result (the object returned, or the exception) and the store
  it leaves.
\<close>

type_synonym store = "matrix list"

type_synonym ref = nat

definition raw_obj :: "store \<Rightarrow> rat list list \<Rightarrow> ref \<times> store" where
  "raw_obj h rs = (length h, h @ [raw rs])"

definition zero_obj :: "store \<Rightarrow> int \<Rightarrow> int \<Rightarrow> ref \<times> store" where
  "zero_obj h m n = raw_obj h (replicate (nat m) (replicate (nat n) 0))"

definition fill_obj ::
  "store \<Rightarrow> ref \<Rightarrow> (store \<Rightarrow> nat \<Rightarrow> nat \<Rightarrow> error + rat) \<Rightarrow> error option \<times> store"
where
  "fill_obj h a func =
     (case fill (h ! a) (\<lambda>self. func (h[a := self])) of (res, m') \<Rightarrow> (res, h[a := m']))"

definition copy_obj :: "store \<Rightarrow> ref \<Rightarrow> (error + ref) \<times> store" where
  "copy_obj h a =
     (case size_m (h ! a) of Inl e \<Rightarrow> (Inl e, h)
      | Inr (r, c) \<Rightarrow>
          (case zero_obj h (int r) (int c) of
             (new, h1) \<Rightarrow>
               (case fill_obj h1 new (\<lambda>s r c. getitem (s ! a) (int r) (int c)) of
                  (Some e, h2) \<Rightarrow> (Inl e, h2)
                | (None, h2) \<Rightarrow> (Inr new, h2))))"

definition iadd :: "store \<Rightarrow> ref \<Rightarrow> ref \<Rightarrow> (error + ref) \<times> store" where
  "iadd h a b =
     (case size_m (h ! a) of Inl e \<Rightarrow> (Inl e, h)
      | Inr sa \<Rightarrow>
          (case size_m (h ! b) of Inl e \<Rightarrow> (Inl e, h)
           | Inr sb \<Rightarrow>
               if sa \<noteq> sb then (Inl ValueError, h)
               else
                 (case fill_obj h a
                         (\<lambda>s r c. case getitem (s ! a) (int r) (int c) of Inl e \<Rightarrow> Inl e
                                  | Inr x \<Rightarrow>
                                      (case getitem (s ! b) (int r) (int c) of Inl e \<Rightarrow> Inl e
                                       | Inr y \<Rightarrow> Inr (x + y))) of
                    (Some e, h') \<Rightarrow> (Inl e, h')
                  | (None, h') \<Rightarrow> (Inr a, h'))))"

definition add :: "store \<Rightarrow> ref \<Rightarrow> ref \<Rightarrow> (error + ref) \<times> store" where
  "add h a b =
     (case copy_obj h a of (Inl e, h1) \<Rightarrow> (Inl e, h1) | (Inr new, h1) \<Rightarrow> iadd h1 new b)"

subsection \<open>Notions used to state the properties\<close>

text \<open>
  \<open>shaped m r c\<close>: the data model's invariant, \<open>r\<close> rows of \<open>c\<close> elements each.
  \<open>shape\<close>: the shape the specification gives a matrix, with \<open>(0, 0)\<close> for the empty
  one. \<open>slice_lo\<close> and \<open>slice_hi\<close>: the bounds a slice denotes in a dimension of
  size \<open>n\<close>, in the specification's words (an absent start is 0, an absent stop is
  the size, a negative bound has the size added). \<open>region\<close>: the entries of a
  rectangle of a matrix.
\<close>

definition shaped :: "matrix \<Rightarrow> nat \<Rightarrow> nat \<Rightarrow> bool" where
  "shaped m r c \<longleftrightarrow> length m = r \<and> (\<forall>row \<in> set m. length row = c)"

definition shape :: "matrix \<Rightarrow> nat \<times> nat" where
  "shape m = (case m of [] \<Rightarrow> (0, 0) | row # _ \<Rightarrow> (length m, length row))"

definition slice_lo :: "slice \<Rightarrow> nat \<Rightarrow> int" where
  "slice_lo s n = (case fst s of None \<Rightarrow> 0 | Some k \<Rightarrow> if k < 0 then k + int n else k)"

definition slice_hi :: "slice \<Rightarrow> nat \<Rightarrow> int" where
  "slice_hi s n = (case snd s of None \<Rightarrow> int n | Some k \<Rightarrow> if k < 0 then k + int n else k)"

definition region :: "matrix \<Rightarrow> nat \<Rightarrow> nat \<Rightarrow> nat \<Rightarrow> nat \<Rightarrow> matrix" where
  "region m r0 c0 nr nc = map (\<lambda>r. map (\<lambda>c. m ! (r0 + r) ! (c0 + c)) [0..<nc]) [0..<nr]"

text \<open>
  The determinant as the specification defines it, on the rows themselves and with no
  exception: \<open>without m r c\<close> is the matrix with row \<open>r\<close> and column \<open>c\<close> removed;
  \<open>laplace\<close> is \<open>a * d - b * c\<close> on two rows, and otherwise the expansion along row 0,
  the sum over the columns \<open>c\<close> of the entry \<open>m[0][c]\<close> times the determinant of
  \<open>without m 0 c\<close> times \<open>(-1)^c\<close>.
\<close>

definition without :: "matrix \<Rightarrow> nat \<Rightarrow> nat \<Rightarrow> matrix" where
  "without m r c = map (\<lambda>row. take c row @ drop (Suc c) row) (take r m @ drop (Suc r) m)"

function laplace :: "matrix \<Rightarrow> rat" where
  "laplace m =
     (if length m = 2 then m ! 0 ! 0 * m ! 1 ! 1 - m ! 0 ! 1 * m ! 1 ! 0
      else (\<Sum>c<length m. m ! 0 ! c * laplace (without m 0 c) * (- 1) ^ c))"
  by pat_completeness auto
termination
  by (relation "measure length") (auto simp: without_def)

declare laplace.simps [simp del]

section \<open>Properties\<close>

subsection \<open>Matrices of one row and one column\<close>

lemma determinant_empty: "determinant [] = Inl IndexError"
  by (simp add: determinant.simps [of "[]"] is_square_def columns_def py_index_def py_pos_def)

lemma submatrix_1x1: "submatrix [[a]] [0] [0] = Inr []"
  by (simp add: submatrix_def rows_def raw_def)

lemma determinant_1x1: "determinant [[a]] = Inl IndexError"
  by (simp add: determinant.simps [of "[[a]]"] determinant_empty submatrix_1x1 is_square_def
      columns_def py_index_def py_pos_def rows_def size_m_def getitem_def py_sum_def)

text \<open>
  C10. A matrix \<open>[[a]]\<close> is square, and its size is not \<open>(2, 2)\<close>, so
  \<open>determinant\<close> takes the general case: \<open>minor 0 0\<close> is the determinant of the
  submatrix without row 0 and column 0, the empty matrix, on which \<open>columns\<close> raises
  \<open>IndexError\<close>. The determinant of every 1x1 matrix is that exception, never a value.
\<close>

theorem determinant_1x1_raises:
  "is_square [[a]] = Inr True \<and> submatrix [[a]] [0] [0] = Inr [] \<and>
   columns [] = Inl IndexError \<and> minor [[a]] 0 0 = Inl IndexError \<and>
   determinant [[a]] = Inl IndexError"
  by (simp add: determinant_1x1 determinant_empty submatrix_1x1 minor_def is_square_def
      columns_def py_index_def py_pos_def rows_def)

subsection \<open>Evaluations\<close>

text \<open>
  C1. \<open>is_invertible\<close> on the square matrix \<open>[[4, 6], [3, 8]]\<close>, whose determinant is
  14, is \<open>False\<close>, and on the matrix \<open>[[1, 2, 3]]\<close>, which is not square, it is \<open>True\<close>:
  the property answers "not square", the opposite of "square with a non-zero determinant".
\<close>

theorem is_invertible_inverted:
  "determinant [[4, 6], [3, 8]] = Inr 14 \<and> is_invertible [[4, 6], [3, 8]] = Inr False \<and>
   is_square [[1, 2, 3]] = Inr False \<and> is_invertible [[1, 2, 3]] = Inr True"
  by code_simp

text \<open>
  C2. The 2x2 matrix \<open>[[4, 6], [3, 8]]\<close> is square with determinant 14, and
  \<open>inverse_m\<close> raises \<open>IndexError\<close> on it instead of returning a matrix: each minor of
  a 2x2 matrix is the determinant of a 1x1 matrix.
\<close>

theorem inverse_2x2_raises:
  "is_square [[4, 6], [3, 8]] = Inr True \<and> determinant [[4, 6], [3, 8]] = Inr 14 \<and>
   minor [[4, 6], [3, 8]] 0 0 = Inl IndexError \<and> inverse_m [[4, 6], [3, 8]] = Inl IndexError"
  by code_simp

text \<open>
  The inverse of the specification's 3x3 example, and its product with the matrix, in
  exact arithmetic.
\<close>

lemma inverse_3x3_example:
  "inverse_m [[3, 0, 2], [2, 0, - 2], [0, 1, 1]] =
     Inr (Some [[1 / 5, 1 / 5, 0], [- (1 / 5), 3 / 10, 1], [1 / 5, - (3 / 10), 0]])"
  "matmul [[3, 0, 2], [2, 0, - 2], [0, 1, 1]]
     [[1 / 5, 1 / 5, 0], [- (1 / 5), 3 / 10, 1], [1 / 5, - (3 / 10), 0]] = identity 3"
  by code_simp+

text \<open>
  C3. For \<open>A = [[2, 0, 0], [0, 2, 0], [0, 0, 2]]\<close>, whose inverse is half the identity,
  \<open>pow A (- 2)\<close> is the identity matrix: the loop multiplies the inverse by \<open>A\<close>
  itself. The product of the inverse with the inverse is a quarter of the identity.
  With exponent \<open>- 1\<close> the result is the inverse.
\<close>

theorem pow_negative_multiplies_by_self:
  "inverse_m [[2, 0, 0], [0, 2, 0], [0, 0, 2]] =
     Inr (Some [[1 / 2, 0, 0], [0, 1 / 2, 0], [0, 0, 1 / 2]]) \<and>
   pow [[2, 0, 0], [0, 2, 0], [0, 0, 2]] (- 2) = Inr (Some [[1, 0, 0], [0, 1, 0], [0, 0, 1]]) \<and>
   matmul [[1 / 2, 0, 0], [0, 1 / 2, 0], [0, 0, 1 / 2]] [[2, 0, 0], [0, 2, 0], [0, 0, 2]] =
     Inr [[1, 0, 0], [0, 1, 0], [0, 0, 1]] \<and>
   matmul [[1 / 2, 0, 0], [0, 1 / 2, 0], [0, 0, 1 / 2]] [[1 / 2, 0, 0], [0, 1 / 2, 0], [0, 0, 1 / 2]] =
     Inr [[1 / 4, 0, 0], [0, 1 / 4, 0], [0, 0, 1 / 4]] \<and>
   pow [[2, 0, 0], [0, 2, 0], [0, 0, 2]] (- 1) =
     Inr (Some [[1 / 2, 0, 0], [0, 1 / 2, 0], [0, 0, 1 / 2]])"
  by code_simp

text \<open>
  C4. The constructor gives the empty \<open>_list\<close> for an empty sequence and for a sequence
  whose first element is empty; on that matrix \<open>rows\<close> is 0 and \<open>columns\<close> raises
  \<open>IndexError\<close>.
\<close>

theorem columns_of_empty_raises:
  "Matrix_init [] = Inr [] \<and> Matrix_init ([] # rest) = Inr [] \<and>
   rows [] = 0 \<and> columns [] = Inl IndexError"
  by (simp add: Matrix_init_def rows_def columns_def py_index_def py_pos_def)

text \<open>
  C7. In \<open>[[0, 0], [1, 0]]\<close> a row of zeros is followed by a row with a non-zero
  entry, and \<open>is_echelon\<close> is \<open>True\<close>: the loop over \<open>range(rows - 1)\<close> never looks at
  the last row. The same happens below a non-zero row, in \<open>[[1, 0], [0, 0], [0, 1]]\<close>.
\<close>

theorem is_echelon_misses_last_row:
  "is_echelon [[0, 0], [1, 0]] = Inr True \<and> is_echelon [[1, 0], [0, 0], [0, 1]] = Inr True"
  by code_simp

subsection \<open>The inverse of small matrices\<close>

lemma determinant_2x2: "determinant [[a, b], [c, d]] = Inr (a * d - b * c)"
  by (simp add: determinant.simps [of "[[a, b], [c, d]]"] is_square_def columns_def
      py_index_def py_pos_def rows_def size_m_def getitem_def)

lemma upt_2: "[0..<2] = [0, 1]"
  by (simp add: upt_rec)

lemma minor_2x2: "minor [[a, b], [c, d]] 0 0 = Inl IndexError"
  by (simp add: minor_def submatrix_def rows_def columns_def py_index_def py_pos_def raw_def
      getitem_def upt_2 determinant_1x1)

text \<open>
  C5. \<open>inverse_m\<close> raises \<open>IndexError\<close> on every 2x2 matrix with a non-zero
  determinant (where a matrix is expected), on every 1x1 matrix (also on
  \<open>[[0]]\<close>, which has no inverse) and on the empty matrix.
\<close>

theorem inverse_raises_on_small:
  "(a * d - b * c \<noteq> 0 \<longrightarrow> inverse_m [[a, b], [c, d]] = Inl IndexError) \<and>
   inverse_m [[x]] = Inl IndexError \<and> inverse_m [] = Inl IndexError"
  by (simp add: inverse_m_def is_square_def columns_def py_index_def py_pos_def rows_def
      determinant_2x2 determinant_1x1 size_m_def fill_def zero_m_def raw_def upt_2 minor_2x2
      returned_def)

theorem inverse_raises_on_small_witness:
  "(1::rat) * 4 - 2 * 3 \<noteq> 0 \<and> inverse_m [[1, 2], [3, 4]] = Inl IndexError \<and>
   inverse_m [[0]] = Inl IndexError"
  using inverse_raises_on_small [of 1 4 2 3 0] by simp

subsection \<open>Well-shaped matrices\<close>

lemma py_pos_nat [simp]: "py_pos n (int k) = (if k < n then Inr k else Inl IndexError)"
  by (auto simp: py_pos_def)

lemma py_pos_0 [simp]: "py_pos n 0 = (if 0 < n then Inr 0 else Inl IndexError)"
  using py_pos_nat [of n 0] by simp

lemma shaped_nth: "shaped m r c \<Longrightarrow> i < r \<Longrightarrow> length (m ! i) = c"
  by (auto simp: shaped_def)

lemma columns_shaped: "shaped m r c \<Longrightarrow> 0 < r \<Longrightarrow> columns m = Inr c"
  by (auto simp: columns_def py_index_def shaped_def)

lemma getitem_shaped:
  "shaped m r c \<Longrightarrow> i < r \<Longrightarrow> j < c \<Longrightarrow> getitem m (int i) (int j) = Inr (m ! i ! j)"
  by (auto simp: getitem_def py_index_def shaped_def)

lemma collect_map_Inr:
  "(\<And>x. x \<in> set xs \<Longrightarrow> f x = Inr (g x)) \<Longrightarrow> collect (map f xs) = Inr (map g xs)"
  by (induction xs) auto

lemma filter_upt_neq: "c < n \<Longrightarrow> filter (\<lambda>j. j \<noteq> c) [0..<n] = [0..<c] @ [Suc c..<n]"
proof -
  assume "c < n"
  then have "[0..<n] = [0..<c] @ c # [Suc c..<n]"
    using upt_add_eq_append [of 0 c "n - c"] by (simp add: upt_conv_Cons)
  then show ?thesis by simp
qed

lemma submatrix_shaped:
  assumes "shaped m r c" and "0 < r" and "k < c"
  shows "\<exists>s. submatrix m [0] [int k] = Inr s \<and> shaped s (r - 1) (c - 1)"
proof -
  let ?js = "filter (\<lambda>j. j \<noteq> k) [0..<c]"
  let ?is = "filter (\<lambda>i. i \<noteq> 0) [0..<r]"
  let ?row = "\<lambda>i. map (\<lambda>j. m ! i ! j) ?js"
  have len: "length m = r"
    using assms(1) by (simp add: shaped_def)
  have inner: "collect (map (\<lambda>j. getitem m (int i) (int j)) ?js) = Inr (?row i)" if "i < r" for i
    using that assms(1) by (intro collect_map_Inr) (auto simp: getitem_shaped)
  have "collect (map (\<lambda>i. collect (map (\<lambda>j. getitem m (int i) (int j)) ?js)) ?is)
          = Inr (map ?row ?is)"
    by (rule collect_map_Inr) (use inner in auto)
  then have "submatrix m [0] [int k] = Inr (map ?row ?is)"
    by (simp add: submatrix_def rows_def raw_def columns_shaped [OF assms(1,2)] len)
  moreover have "length ?js = c - 1"
    using filter_upt_neq [OF assms(3)] assms(3) by simp
  moreover have "length ?is = r - 1"
    using filter_upt_neq [OF assms(2)] by simp
  ultimately show ?thesis by (auto simp: shaped_def)
qed

lemma minus_one_power_mod2: "(- 1 :: rat) ^ (c mod 2) = (- 1) ^ c"
  by (cases "even c") (auto simp: odd_iff_mod_2_eq_one)

lemma py_sum_map_Inr:
  "(\<And>x. x \<in> set xs \<Longrightarrow> f x = Inr (g x)) \<Longrightarrow> py_sum (map f xs) = Inr (sum_list (map g xs))"
  by (simp add: py_sum_def collect_map_Inr)

subsection \<open>The determinant\<close>

text \<open>
  The general case of \<open>determinant\<close> in the source's shape: when every minor along
  row 0 is a value, the determinant of a square matrix of size at least 3 is the sum
  of the signed products.
\<close>

lemma determinant_general:
  assumes m: "shaped m n n" and n: "3 \<le> n"
    and mn: "\<And>k. k < n \<Longrightarrow> minor m 0 (int k) = Inr (mn k)"
  shows "determinant m = Inr (sum_list (map (\<lambda>k. m ! 0 ! k * mn k * (- 1) ^ (k mod 2)) [0..<n]))"
proof -
  have cols: "columns m = Inr n"
    using columns_shaped [OF m] n by simp
  have len: "length m = n"
    using m by (simp add: shaped_def)
  have sq: "is_square m = Inr True" and sz: "size_m m = Inr (n, n)"
    by (simp_all add: is_square_def size_m_def rows_def cols len)
  have "py_sum (map (\<lambda>c. case getitem m 0 (int c) of Inl e \<Rightarrow> Inl e
                 | Inr x \<Rightarrow> (case submatrix m [0] [int c] of Inl e \<Rightarrow> Inl e
                     | Inr s \<Rightarrow> (case determinant s of Inl e \<Rightarrow> Inl e
                        | Inr d \<Rightarrow> Inr (x * d * (- 1) ^ (c mod 2))))) [0..<n])
          = Inr (sum_list (map (\<lambda>k. m ! 0 ! k * mn k * (- 1) ^ (k mod 2)) [0..<n]))"
  proof (rule py_sum_map_Inr)
    fix c assume "c \<in> set [0..<n]"
    then have c: "c < n" by simp
    from getitem_shaped [OF m _ c, of 0] n have "getitem m 0 (int c) = Inr (m ! 0 ! c)"
      by simp
    with mn [OF c] show "(case getitem m 0 (int c) of Inl e \<Rightarrow> Inl e
                 | Inr x \<Rightarrow> (case submatrix m [0] [int c] of Inl e \<Rightarrow> Inl e
                     | Inr s \<Rightarrow> (case determinant s of Inl e \<Rightarrow> Inl e
                        | Inr d \<Rightarrow> Inr (x * d * (- 1) ^ (c mod 2))))) = Inr (m ! 0 ! c * mn c * (- 1) ^ (c mod 2))"
      by (auto simp: minor_def split: sum.splits)
  qed
  then show ?thesis
    using n by (subst determinant.simps) (simp add: sq sz cols)
qed

text \<open>
  What \<open>submatrix\<close> returns for \<^verbatim>\<open>minor(0, k)\<close>: the rows after the first, each without
  its element \<open>k\<close>.
\<close>

lemma map_nth_upt:
  assumes "n \<le> length xs"
  shows "map ((!) xs) [i..<n] = drop i (take n xs)"
proof -
  have "drop i (take n xs) = drop i (take n (map ((!) xs) [0..<length xs]))"
    by (simp add: map_nth)
  also have "\<dots> = map ((!) xs) (drop i (take n [0..<length xs]))"
    by (simp only: drop_map take_map)
  also have "\<dots> = map ((!) xs) [i..<n]"
    using assms by simp
  finally show ?thesis by simp
qed

lemma map_nth_without:
  assumes "k < length xs"
  shows "map (\<lambda>j. xs ! j) (filter (\<lambda>j. j \<noteq> k) [0..<length xs]) = take k xs @ drop (Suc k) xs"
proof -
  have "map ((!) xs) [0..<k] = take k xs"
    using assms map_nth_upt [of k xs 0] by simp
  moreover have "map ((!) xs) [Suc k..<length xs] = drop (Suc k) xs"
    using map_nth_upt [of "length xs" xs "Suc k"] by simp
  ultimately show ?thesis
    using filter_upt_neq [OF assms] by simp
qed

lemma submatrix_without:
  assumes "shaped m r c" and "0 < r" and "k < c"
  shows "submatrix m [0] [int k] = Inr (without m 0 k)"
proof -
  let ?js = "filter (\<lambda>j. j \<noteq> k) [0..<c]"
  let ?is = "filter (\<lambda>i. i \<noteq> 0) [0..<r]"
  let ?cut = "\<lambda>row :: rat list. take k row @ drop (Suc k) row"
  have len: "length m = r"
    using assms(1) by (simp add: shaped_def)
  have row: "map (\<lambda>j. m ! i ! j) ?js = ?cut (m ! i)" if "i < r" for i
    using map_nth_without [of k "m ! i"] shaped_nth [OF assms(1) that] assms(3) by simp
  have inner: "collect (map (\<lambda>j. getitem m (int i) (int j)) ?js) = Inr (?cut (m ! i))" if "i < r" for i
  proof -
    have "collect (map (\<lambda>j. getitem m (int i) (int j)) ?js) = Inr (map (\<lambda>j. m ! i ! j) ?js)"
      using that assms(1) by (intro collect_map_Inr) (auto simp: getitem_shaped)
    with row [OF that] show ?thesis by simp
  qed
  have "collect (map (\<lambda>i. collect (map (\<lambda>j. getitem m (int i) (int j)) ?js)) ?is)
          = Inr (map (\<lambda>i. ?cut (m ! i)) ?is)"
    by (rule collect_map_Inr) (use inner in auto)
  then have "submatrix m [0] [int k] = Inr (map (\<lambda>i. ?cut (m ! i)) ?is)"
    by (simp add: submatrix_def rows_def raw_def columns_shaped [OF assms(1,2)] len)
  moreover have "map (\<lambda>i. ?cut (m ! i)) ?is = map ?cut (drop (Suc 0) m)"
  proof -
    have i: "?is = [Suc 0..<r]"
      using filter_upt_neq [OF assms(2)] by simp
    have d: "drop (Suc 0) m = map ((!) m) [Suc 0..<r]"
      using map_nth_upt [of r m "Suc 0"] len by simp
    have "map ?cut (drop (Suc 0) m) = map ?cut (map ((!) m) [Suc 0..<r])"
      by (simp only: d)
    also have "\<dots> = map (\<lambda>i. ?cut (m ! i)) [Suc 0..<r]"
      by (simp only: map_map comp_def)
    finally show ?thesis
      by (simp only: i)
  qed
  ultimately show ?thesis
    by (simp add: without_def)
qed

lemma shaped_without:
  assumes "shaped m r c" and "0 < r" and "k < c"
  shows "shaped (without m 0 k) (r - 1) (c - 1)"
  using submatrix_shaped [OF assms] submatrix_without [OF assms] by simp

lemma minor_without:
  assumes "shaped m r c" and "0 < r" and "k < c"
  shows "minor m 0 (int k) = determinant (without m 0 k)"
  using submatrix_without [OF assms] by (simp add: minor_def)

lemma determinant_shaped_2:
  assumes "shaped m 2 2"
  shows "determinant m = Inr (m ! 0 ! 0 * m ! 1 ! 1 - m ! 0 ! 1 * m ! 1 ! 0)"
proof -
  have cols: "columns m = Inr 2" and len: "length m = 2"
    using columns_shaped [OF assms] assms by (simp_all add: shaped_def)
  have "getitem m 0 0 = Inr (m ! 0 ! 0)" "getitem m 1 1 = Inr (m ! 1 ! 1)"
    "getitem m 0 1 = Inr (m ! 0 ! 1)" "getitem m 1 0 = Inr (m ! 1 ! 0)"
    using getitem_shaped [OF assms, of 0 0] getitem_shaped [OF assms, of 1 1]
      getitem_shaped [OF assms, of 0 1] getitem_shaped [OF assms, of 1 0]
    by simp_all
  then show ?thesis
    by (subst determinant.simps) (simp add: is_square_def size_m_def rows_def cols len)
qed

text \<open>
  On a square matrix of at least two rows, \<open>determinant\<close> raises nothing and returns the
  determinant the specification defines.
\<close>

lemma determinant_eq_laplace:
  "shaped m n n \<Longrightarrow> 2 \<le> n \<Longrightarrow> determinant m = Inr (laplace m)"
proof (induction n arbitrary: m rule: less_induct)
  case (less n)
  have len: "length m = n"
    using less.prems(1) by (simp add: shaped_def)
  show ?case
  proof (cases "n = 2")
    case True
    with less.prems(1) len show ?thesis
      by (simp add: determinant_shaped_2 laplace.simps [of m])
  next
    case False
    with less.prems have n3: "3 \<le> n" by simp
    have mn: "minor m 0 (int k) = Inr (laplace (without m 0 k))" if "k < n" for k
    proof -
      from n3 have "0 < n" "n - 1 < n" "2 \<le> n - 1" by simp_all
      from less.IH [OF this(2) shaped_without [OF less.prems(1) this(1) that] this(3)]
      show ?thesis
        using minor_without [OF less.prems(1) \<open>0 < n\<close> that] by simp
    qed
    have "sum_list (map (\<lambda>k. m ! 0 ! k * laplace (without m 0 k) * (- 1) ^ (k mod 2)) [0..<n])
            = (\<Sum>k<n. m ! 0 ! k * laplace (without m 0 k) * (- 1) ^ k)"
      by (simp add: interv_sum_list_conv_sum_set_nat minus_one_power_mod2 lessThan_atLeast0)
    with determinant_general [OF less.prems(1) n3 mn] False len show ?thesis
      by (simp add: laplace.simps [of m])
  qed
qed

lemma determinant_not_square:
  "columns m = Inr n \<Longrightarrow> rows m \<noteq> n \<Longrightarrow> determinant m = Inl ValueError"
  by (subst determinant.simps) (simp add: is_square_def)

text \<open>
  C6. The determinant of a 2x2 matrix \<open>[[a, b], [c, d]]\<close> is \<open>a * d - b * c\<close>. For a
  square matrix of size \<open>n \<ge> 3\<close> (\<open>n\<close> rows of \<open>n\<close> elements) and every column \<open>k\<close>,
  the submatrix of \<^verbatim>\<open>minor(0, k)\<close> is the matrix without row 0 and column \<open>k\<close>, again
  square, and the minor is its determinant as the specification defines it; the
  determinant is the Laplace expansion along row 0, the sum over the columns \<open>k\<close> of
  \<open>m[0][k] * minor(0, k) * (-1)^k\<close>. So on every square matrix of at least two rows
  \<open>determinant\<close> returns the specification's determinant. On a matrix whose numbers of
  rows and of columns differ, \<open>determinant\<close> raises \<open>ValueError\<close>.
\<close>

theorem determinant_laplace:
  "determinant [[a, b], [c, d]] = Inr (a * d - b * c) \<and>
   (\<forall>m n. shaped m n n \<and> 3 \<le> n \<longrightarrow>
      (\<forall>k<n. submatrix m [0] [int k] = Inr (without m 0 k) \<and>
             shaped (without m 0 k) (n - 1) (n - 1) \<and>
             minor m 0 (int k) = Inr (laplace (without m 0 k))) \<and>
      determinant m = Inr (\<Sum>k<n. m ! 0 ! k * laplace (without m 0 k) * (- 1) ^ k)) \<and>
   (\<forall>m n. shaped m n n \<and> 2 \<le> n \<longrightarrow> determinant m = Inr (laplace m)) \<and>
   (\<forall>m n. columns m = Inr n \<and> rows m \<noteq> n \<longrightarrow> determinant m = Inl ValueError)"
proof (intro conjI allI impI)
  show "determinant [[a, b], [c, d]] = Inr (a * d - b * c)"
    by (rule determinant_2x2)
next
  fix m :: matrix and n k
  assume "shaped m n n \<and> 3 \<le> n" and k: "k < n"
  then have m: "shaped m n n" and n: "0 < n" "2 \<le> n - 1" by auto
  show "submatrix m [0] [int k] = Inr (without m 0 k)"
    by (rule submatrix_without [OF m n(1) k])
  show "shaped (without m 0 k) (n - 1) (n - 1)"
    by (rule shaped_without [OF m n(1) k])
  show "minor m 0 (int k) = Inr (laplace (without m 0 k))"
    using minor_without [OF m n(1) k]
      determinant_eq_laplace [OF shaped_without [OF m n(1) k] n(2)] by simp
next
  fix m :: matrix and n
  assume "shaped m n n \<and> 3 \<le> n"
  then have m: "shaped m n n" and n: "3 \<le> n" "2 \<le> n" "length m = n"
    by (simp_all add: shaped_def)
  from determinant_eq_laplace [OF m n(2)] n
  show "determinant m = Inr (\<Sum>k<n. m ! 0 ! k * laplace (without m 0 k) * (- 1) ^ k)"
    by (simp add: laplace.simps [of m])
next
  fix m :: matrix and n
  assume "shaped m n n \<and> 2 \<le> n"
  then have "shaped m n n" and "2 \<le> n" by simp_all
  then show "determinant m = Inr (laplace m)"
    by (rule determinant_eq_laplace)
next
  fix m :: matrix and n
  assume "columns m = Inr n \<and> rows m \<noteq> n"
  then show "determinant m = Inl ValueError"
    by (simp add: determinant_not_square)
qed

theorem determinant_laplace_witness:
  "determinant [[4, 6], [3, 8]] = Inr 14 \<and>
   shaped [[3, 0, 2], [2, 0, - 2], [0, 1, 1]] 3 3 \<and>
   submatrix [[3, 0, 2], [2, 0, - 2], [0, 1, 1]] [0] [1] = Inr [[2, - 2], [0, 1]] \<and>
   minor [[3, 0, 2], [2, 0, - 2], [0, 1, 1]] 0 0 = Inr 2 \<and>
   minor [[3, 0, 2], [2, 0, - 2], [0, 1, 1]] 0 1 = Inr 2 \<and>
   minor [[3, 0, 2], [2, 0, - 2], [0, 1, 1]] 0 2 = Inr 2 \<and>
   determinant [[3, 0, 2], [2, 0, - 2], [0, 1, 1]] = Inr 10 \<and>
   shaped [[1, 2, 3, 4], [0, 1, 5, 2], [2, 2, 1, 0], [3, 1, 0, 1]] 4 4 \<and>
   determinant [[1, 2, 3, 4], [0, 1, 5, 2], [2, 2, 1, 0], [3, 1, 0, 1]] = Inr 59 \<and>
   columns [[1, 2, 3]] = Inr 3 \<and> rows [[1, 2, 3]] \<noteq> 3 \<and>
   determinant [[1, 2, 3]] = Inl ValueError"
proof -
  let ?M = "[[3, 0, 2], [2, 0, - 2], [0, 1, 1 :: rat]]"
  let ?Q = "[[1, 2, 3, 4], [0, 1, 5, 2], [2, 2, 1, 0], [3, 1, 0, 1 :: rat]]"
  let ?N = "[[1, 2, 3 :: rat]]"
  note L = determinant_laplace [of 4 6 3 8]
  have sh: "shaped ?M 3 3" and shq: "shaped ?Q 4 4"
    by (simp_all add: shaped_def)
  have c: "columns ?N = Inr 3" and r: "rows ?N \<noteq> 3"
    by (simp_all add: columns_def py_index_def rows_def)
  from L have d2: "determinant [[4, 6], [3, 8]] = Inr 14"
    by simp
  from L have "shaped ?M 3 3 \<and> (3::nat) \<le> 3 \<longrightarrow>
      (\<forall>k<3. submatrix ?M [0] [int k] = Inr (without ?M 0 k) \<and>
             shaped (without ?M 0 k) (3 - 1) (3 - 1) \<and>
             minor ?M 0 (int k) = Inr (laplace (without ?M 0 k))) \<and>
      determinant ?M = Inr (\<Sum>k<3. ?M ! 0 ! k * laplace (without ?M 0 k) * (- 1) ^ k)"
    by (elim conjE allE [where x = ?M]) (erule allE [where x = 3])
  with sh have mn: "\<forall>k<3. submatrix ?M [0] [int k] = Inr (without ?M 0 k) \<and>
             shaped (without ?M 0 k) (3 - 1) (3 - 1) \<and>
             minor ?M 0 (int k) = Inr (laplace (without ?M 0 k))"
    and dm: "determinant ?M = Inr (\<Sum>k<3. ?M ! 0 ! k * laplace (without ?M 0 k) * (- 1) ^ k)"
    by simp_all
  have w: "without ?M 0 0 = [[0, - 2], [1, 1]]" "without ?M 0 1 = [[2, - 2], [0, 1]]"
    "without ?M 0 2 = [[2, 0], [0, 1]]"
    by (simp_all add: without_def)
  have l: "laplace [[0, - 2], [1, 1]] = 2" "laplace [[2, - 2], [0, 1]] = 2"
    "laplace [[2, 0], [0, 1]] = 2"
    by (simp_all add: laplace.simps)
  have s1: "submatrix ?M [0] [1] = Inr [[2, - 2], [0, 1]]"
    using mn [rule_format, of 1] w by simp
  have m0: "minor ?M 0 0 = Inr 2" and m1: "minor ?M 0 1 = Inr 2" and m2: "minor ?M 0 2 = Inr 2"
    using mn [rule_format, of 0] mn [rule_format, of 1] mn [rule_format, of 2] w l
    by simp_all
  have d3: "determinant ?M = Inr 10"
    using dm w l by (simp add: lessThan_nat_numeral lessThan_Suc)
  from L have "shaped ?Q 4 4 \<and> (2::nat) \<le> 4 \<longrightarrow> determinant ?Q = Inr (laplace ?Q)"
    by (elim conjE allE [where x = ?Q]) (erule allE [where x = 4])
  moreover have "laplace ?Q = 59"
    by code_simp
  ultimately have d4: "determinant ?Q = Inr 59"
    using shq by simp
  from L have "columns ?N = Inr 3 \<and> rows ?N \<noteq> 3 \<longrightarrow> determinant ?N = Inl ValueError"
    by (elim conjE allE [where x = ?N]) (erule allE [where x = 3])
  with c r have ns: "determinant ?N = Inl ValueError"
    by simp
  from d2 sh s1 m0 m1 m2 d3 shq d4 c r ns show ?thesis
    by blast
qed

subsection \<open>Filling a matrix\<close>

lemma setitem_nat:
  "r < length m \<Longrightarrow> c < length (m ! r) \<Longrightarrow>
   setitem m (int r) (int c) v = Inr (m[r := (m ! r)[c := v]])"
  by (simp add: setitem_def)

text \<open>
  When \<open>func\<close> gives the value \<open>g c\<close> at column \<open>c\<close> whatever the state, the inner
  loop over the columns \<open>cs\<close> of row \<open>r\<close> writes those values and nothing else.
\<close>

lemma fill_cols_values:
  assumes "r < length m" and "\<forall>c \<in> set cs. c < length (m ! r)"
    and "\<And>cur c. c \<in> set cs \<Longrightarrow> func cur r c = Inr (g c)"
  shows "fill_cols func r cs m =
           (None, m[r := map (\<lambda>j. if j \<in> set cs then g j else m ! r ! j) [0..<length (m ! r)]])"
  using assms
proof (induction cs arbitrary: m)
  case Nil
  then show ?case by (simp add: map_nth)
next
  case (Cons c cs)
  let ?m' = "m[r := (m ! r)[c := g c]]"
  have set: "setitem m (int r) (int c) (g c) = Inr ?m'"
    using Cons.prems(1,2) by (simp add: setitem_nat)
  have r': "r < length ?m'" and len': "length (?m' ! r) = length (m ! r)"
    using Cons.prems(1) by simp_all
  have "fill_cols func r cs ?m' =
          (None, ?m'[r := map (\<lambda>j. if j \<in> set cs then g j else ?m' ! r ! j) [0..<length (?m' ! r)]])"
    using Cons.prems(2,3) r' len' by (intro Cons.IH) auto
  moreover have "map (\<lambda>j. if j \<in> set cs then g j else ?m' ! r ! j) [0..<length (?m' ! r)]
                   = map (\<lambda>j. if j \<in> set (c # cs) then g j else m ! r ! j) [0..<length (m ! r)]"
    using Cons.prems(1) by (auto simp: nth_list_update)
  ultimately show ?case
    using Cons.prems(3) [of c] set by simp
qed

lemma fill_cols_row:
  assumes "r < length m" and "length (m ! r) = n"
    and "\<And>cur c. c < n \<Longrightarrow> func cur r c = Inr (g c)"
  shows "fill_cols func r [0..<n] m = (None, m[r := map g [0..<n]])"
proof -
  have "fill_cols func r [0..<n] m =
          (None, m[r := map (\<lambda>j. if j \<in> set [0..<n] then g j else m ! r ! j) [0..<length (m ! r)]])"
    by (rule fill_cols_values) (use assms in auto)
  also have "map (\<lambda>j. if j \<in> set [0..<n] then g j else m ! r ! j) [0..<length (m ! r)] = map g [0..<n]"
    using assms(2) by auto
  finally show ?thesis .
qed

lemma fill_rows_values:
  assumes "shaped m nr nc" and "\<forall>r \<in> set rs. r < nr"
    and "\<And>cur r c. r \<in> set rs \<Longrightarrow> c < nc \<Longrightarrow> func cur r c = Inr (g r c)"
  shows "fill_rows func rs m =
           (None, map (\<lambda>i. if i \<in> set rs then map (g i) [0..<nc] else m ! i) [0..<nr])"
  using assms
proof (induction rs arbitrary: m)
  case Nil
  then show ?case by (auto simp: shaped_def intro!: nth_equalityI)
next
  case (Cons r rs)
  let ?m' = "m[r := map (g r) [0..<nc]]"
  from Cons.prems(1,2) have r: "r < length m" and lr: "length (m ! r) = nc" and len: "length m = nr"
    by (auto simp: shaped_def)
  then have cols: "columns m = Inr nc"
    using columns_shaped [OF Cons.prems(1)] by simp
  have inner: "fill_cols func r [0..<nc] m = (None, ?m')"
    using Cons.prems(3) by (intro fill_cols_row r lr) simp
  have sh': "shaped ?m' nr nc"
    using Cons.prems(1) by (auto simp: shaped_def dest: set_update_subset_insert [THEN subsetD])
  have "fill_rows func rs ?m' =
          (None, map (\<lambda>i. if i \<in> set rs then map (g i) [0..<nc] else ?m' ! i) [0..<nr])"
    using Cons.prems(2,3) by (intro Cons.IH sh') auto
  moreover have "map (\<lambda>i. if i \<in> set rs then map (g i) [0..<nc] else ?m' ! i) [0..<nr]
                   = map (\<lambda>i. if i \<in> set (r # rs) then map (g i) [0..<nc] else m ! i) [0..<nr]"
    using len by (auto simp: nth_list_update)
  ultimately show ?case
    by (simp add: cols inner)
qed

text \<open>
  \<open>fill\<close> on a matrix of \<open>nr\<close> rows and \<open>nc\<close> columns, with a \<open>func\<close> that gives
  \<open>g r c\<close> whatever the state: no exception, and the matrix of the values \<open>g r c\<close>.
\<close>

lemma fill_values:
  assumes "shaped m nr nc"
    and "\<And>cur r c. r < nr \<Longrightarrow> c < nc \<Longrightarrow> func cur r c = Inr (g r c)"
  shows "fill m func = (None, map (\<lambda>r. map (g r) [0..<nc]) [0..<nr])"
proof -
  have "length m = nr"
    using assms(1) by (simp add: shaped_def)
  moreover have "fill_rows func [0..<nr] m =
      (None, map (\<lambda>i. if i \<in> set [0..<nr] then map (g i) [0..<nc] else m ! i) [0..<nr])"
    using assms by (intro fill_rows_values) auto
  ultimately show ?thesis
    by (simp add: fill_def rows_def)
qed

lemma shaped_zero_m: "0 \<le> r \<Longrightarrow> 0 \<le> c \<Longrightarrow> shaped (zero_m r c) (nat r) (nat c)"
  by (simp add: zero_m_def raw_def shaped_def)

subsection \<open>Slicing\<close>

lemma slice_start_lo: "slice_start (fst s) (Inr n) = Inr (slice_lo s n)"
  by (simp add: slice_start_def slice_lo_def split: option.splits)

lemma slice_stop_hi: "slice_stop (snd s) (Inr n) = Inr (slice_hi s n)"
  by (simp add: slice_stop_def slice_hi_def split: option.splits)

lemma getitem_slice_bounds:
  assumes "shaped m nr nc" and "0 < nr"
  shows "getitem_slice m i j =
           (if slice_hi i nr - slice_lo i nr < 1 \<or> slice_hi j nc - slice_lo j nc < 1 then Inr []
            else returned
                   (fill (zero_m (slice_hi i nr - slice_lo i nr) (slice_hi j nc - slice_lo j nc))
                      (\<lambda>_ r c. getitem m (slice_lo i nr + int r) (slice_lo j nc + int c))))"
proof -
  have "rows m = nr" and "columns m = Inr nc"
    using assms columns_shaped [OF assms] by (simp_all add: rows_def shaped_def)
  then show ?thesis
    by (simp add: getitem_slice_def slice_start_lo slice_stop_hi Matrix_init_def)
qed

lemma getitem_slice_inside:
  assumes m: "shaped m nr nc"
    and i: "0 \<le> i0" "1 \<le> i1 - i0" "i1 \<le> int nr"
    and j: "0 \<le> j0" "1 \<le> j1 - j0" "j1 \<le> int nc"
  shows "returned (fill (zero_m (i1 - i0) (j1 - j0)) (\<lambda>_ r c. getitem m (i0 + int r) (j0 + int c)))
           = Inr (region m (nat i0) (nat j0) (nat (i1 - i0)) (nat (j1 - j0)))"
proof -
  have z: "shaped (zero_m (i1 - i0) (j1 - j0)) (nat (i1 - i0)) (nat (j1 - j0))"
    using i j by (intro shaped_zero_m) simp_all
  have "getitem m (i0 + int r) (j0 + int c) = Inr (m ! (nat i0 + r) ! (nat j0 + c))"
    if "r < nat (i1 - i0)" "c < nat (j1 - j0)" for r c
  proof -
    have e: "i0 + int r = int (nat i0 + r)" "j0 + int c = int (nat j0 + c)"
      using i j by simp_all
    have "nat i0 + r < nr" "nat j0 + c < nc"
      using i j that by linarith+
    then show ?thesis
      unfolding e by (rule getitem_shaped [OF m])
  qed
  then have "fill (zero_m (i1 - i0) (j1 - j0)) (\<lambda>_ r c. getitem m (i0 + int r) (j0 + int c))
      = (None, map (\<lambda>r. map (\<lambda>c. m ! (nat i0 + r) ! (nat j0 + c)) [0..<nat (j1 - j0)])
                 [0..<nat (i1 - i0)])"
    by (intro fill_values [OF z]) simp
  then show ?thesis
    by (simp add: returned_def region_def)
qed

text \<open>
  C8, amended. For a matrix of \<open>nr \<ge> 1\<close> rows of \<open>nc\<close> elements and two slices, the
  bounds being those the slices denote (an absent start is 0, an absent stop is the
  size, a negative bound has the size added): when the extent is empty in either
  dimension the result is the empty matrix and no exception; when the bounds lie
  inside the matrix the result is the matrix of the entries of the selected
  rectangle. For a matrix of 3 rows and 5 columns, \<open>[1:, 2:-1]\<close> gives the two rows
  1 and 2 of the two columns 2 and 3.
\<close>

theorem getitem_slice_region:
  assumes "shaped m nr nc" and "0 < nr"
  shows "(slice_hi i nr - slice_lo i nr < 1 \<or> slice_hi j nc - slice_lo j nc < 1 \<longrightarrow>
            getitem_slice m i j = Inr []) \<and>
         (0 \<le> slice_lo i nr \<and> 1 \<le> slice_hi i nr - slice_lo i nr \<and> slice_hi i nr \<le> int nr \<and>
          0 \<le> slice_lo j nc \<and> 1 \<le> slice_hi j nc - slice_lo j nc \<and> slice_hi j nc \<le> int nc \<longrightarrow>
            getitem_slice m i j =
              Inr (region m (nat (slice_lo i nr)) (nat (slice_lo j nc))
                     (nat (slice_hi i nr - slice_lo i nr)) (nat (slice_hi j nc - slice_lo j nc)))) \<and>
         (nr = 3 \<and> nc = 5 \<longrightarrow>
            getitem_slice m (Some 1, None) (Some 2, Some (- 1)) =
              Inr [[m ! 1 ! 2, m ! 1 ! 3], [m ! 2 ! 2, m ! 2 ! 3]])"
proof (intro conjI impI)
  assume "slice_hi i nr - slice_lo i nr < 1 \<or> slice_hi j nc - slice_lo j nc < 1"
  then show "getitem_slice m i j = Inr []"
    by (simp add: getitem_slice_bounds [OF assms])
next
  assume b: "0 \<le> slice_lo i nr \<and> 1 \<le> slice_hi i nr - slice_lo i nr \<and> slice_hi i nr \<le> int nr \<and>
          0 \<le> slice_lo j nc \<and> 1 \<le> slice_hi j nc - slice_lo j nc \<and> slice_hi j nc \<le> int nc"
  then have "\<not> (slice_hi i nr - slice_lo i nr < 1 \<or> slice_hi j nc - slice_lo j nc < 1)"
    by simp
  with b show "getitem_slice m i j =
              Inr (region m (nat (slice_lo i nr)) (nat (slice_lo j nc))
                     (nat (slice_hi i nr - slice_lo i nr)) (nat (slice_hi j nc - slice_lo j nc)))"
    by (simp add: getitem_slice_bounds [OF assms] getitem_slice_inside [OF assms(1)])
next
  assume s: "nr = 3 \<and> nc = 5"
  let ?i = "(Some 1, None) :: slice" and ?j = "(Some 2, Some (- 1)) :: slice"
  have lo: "slice_lo ?i 3 = 1" "slice_hi ?i 3 = 3" "slice_lo ?j 5 = 2" "slice_hi ?j 5 = 4"
    by (simp_all add: slice_lo_def slice_hi_def)
  have m35: "shaped m 3 5"
    using assms(1) s by simp
  have "getitem_slice m ?i ?j = Inr (region m 1 2 2 2)"
    using getitem_slice_inside [OF m35, of 1 3 2 4]
    by (simp add: getitem_slice_bounds [OF m35] lo)
  also have "region m 1 2 2 2 = [[m ! 1 ! 2, m ! 1 ! 3], [m ! 2 ! 2, m ! 2 ! 3]]"
    by (simp add: region_def upt_2 numeral_2_eq_2 numeral_3_eq_3)
  finally show "getitem_slice m ?i ?j = Inr [[m ! 1 ! 2, m ! 1 ! 3], [m ! 2 ! 2, m ! 2 ! 3]]" .
qed

theorem getitem_slice_region_witness:
  "shaped [[4, 2, 3, 1, 4], [0, 2, 1, 4, 0], [0, 0, 0, 3, 0]] 3 5 \<and>
   getitem_slice [[4, 2, 3, 1, 4], [0, 2, 1, 4, 0], [0, 0, 0, 3, 0]] (Some 2, Some 1) (None, None)
     = Inr [] \<and>
   getitem_slice [[4, 2, 3, 1, 4], [0, 2, 1, 4, 0], [0, 0, 0, 3, 0]] (Some (- 2), None) (Some 1, Some 3)
     = Inr [[2, 1], [0, 0]] \<and>
   getitem_slice [[4, 2, 3, 1, 4], [0, 2, 1, 4, 0], [0, 0, 0, 3, 0]] (Some 1, None) (Some 2, Some (- 1))
     = Inr [[1, 4], [0, 3]]"
proof -
  let ?M = "[[4, 2, 3, 1, 4], [0, 2, 1, 4, 0], [0, 0, 0, 3, 0 :: rat]]"
  have sh: "shaped ?M 3 5"
    by (simp add: shaped_def)
  have "getitem_slice ?M (Some 2, Some 1) (None, None) = Inr []"
    using getitem_slice_region [OF sh, of "(Some 2, Some 1)" "(None, None)"]
    by (simp add: slice_lo_def slice_hi_def)
  moreover have "getitem_slice ?M (Some (- 2), None) (Some 1, Some 3) = Inr [[2, 1], [0, 0]]"
    using getitem_slice_region [OF sh, of "(Some (- 2), None)" "(Some 1, Some 3)"]
    by (simp add: slice_lo_def slice_hi_def region_def upt_2 numeral_2_eq_2)
  moreover have "getitem_slice ?M (Some 1, None) (Some 2, Some (- 1)) = Inr [[1, 4], [0, 3]]"
    using getitem_slice_region [OF sh, of "(Some 1, None)" "(None, None)"]
    by (simp add: numeral_2_eq_2 numeral_3_eq_3)
  ultimately show ?thesis
    using sh by blast
qed

text \<open>
  C8 as stated fails where a bound lies outside the matrix, since the bounds are not
  clamped: on the 2x2 matrix \<open>[[1, 2], [3, 4]]\<close> the slices \<open>[0:3, 0:1]\<close> raise
  \<open>IndexError\<close>. It also fails on the empty matrix when the column dimension is
  needed: \<open>[:, :]\<close> raises \<open>IndexError\<close> there.
\<close>

theorem getitem_slice_not_clamped:
  "getitem_slice [[1, 2], [3, 4]] (Some 0, Some 3) (Some 0, Some 1) = Inl IndexError \<and>
   getitem_slice [] (None, None) (None, None) = Inl IndexError"
  by code_simp

subsection \<open>In-place addition and addition on the store\<close>

lemma py_pos_error: "py_pos n i = Inl e \<Longrightarrow> e = IndexError"
  by (auto simp: py_pos_def Let_def split: if_splits)

lemma getitem_error: "getitem m i j = Inl e \<Longrightarrow> e = IndexError"
  by (auto simp: getitem_def py_index_def split: sum.splits dest: py_pos_error)

lemma setitem_error: "setitem m i j v = Inl e \<Longrightarrow> e = IndexError"
  by (auto simp: setitem_def split: sum.splits dest: py_pos_error)

lemma columns_error: "columns m = Inl e \<Longrightarrow> e = IndexError"
  by (auto simp: columns_def py_index_def split: sum.splits if_splits)

text \<open>
  The loop of \<open>fill\<close> raises nothing but \<open>IndexError\<close> when \<open>func\<close> raises nothing
  else.
\<close>

lemma fill_cols_error:
  assumes "\<And>cur r c e. func cur r c = Inl e \<Longrightarrow> e = IndexError"
  shows "fst (fill_cols func r cs m) = Some e \<Longrightarrow> e = IndexError"
proof (induction cs arbitrary: m)
  case Nil
  then show ?case by simp
next
  case (Cons c cs)
  then show ?case
    by (auto split: sum.splits dest: assms setitem_error)
qed

lemma fill_rows_error:
  assumes "\<And>cur r c e. func cur r c = Inl e \<Longrightarrow> e = IndexError"
  shows "fst (fill_rows func rs m) = Some e \<Longrightarrow> e = IndexError"
proof (induction rs arbitrary: m)
  case Nil
  then show ?case by simp
next
  case (Cons r rs)
  show ?case
  proof (cases "columns m")
    case (Inl e')
    with Cons.prems show ?thesis by (auto dest: columns_error)
  next
    case (Inr n)
    show ?thesis
    proof (cases "fill_cols func r [0..<n] m")
      case (Pair res m')
      show ?thesis
      proof (cases res)
        case None
        with Cons.prems Inr Pair have "fst (fill_rows func rs m') = Some e" by simp
        then show ?thesis by (rule Cons.IH)
      next
        case (Some e')
        with Cons.prems Inr Pair have "fst (fill_cols func r [0..<n] m) = Some e" by simp
        then show ?thesis by (rule fill_cols_error [rotated]) (rule assms)
      qed
    qed
  qed
qed

lemma fill_obj_error:
  assumes "\<And>s r c e. func s r c = Inl e \<Longrightarrow> e = IndexError"
  shows "fst (fill_obj h a func) = Some e \<Longrightarrow> e = IndexError"
proof -
  assume "fst (fill_obj h a func) = Some e"
  then have "fst (fill_rows (\<lambda>self. func (h[a := self])) [0..<rows (h ! a)] (h ! a)) = Some e"
    by (simp add: fill_obj_def fill_def split: prod.splits)
  then show "e = IndexError"
    by (rule fill_rows_error [rotated]) (rule assms)
qed

text \<open>\<open>fill\<close> on an object changes the contents of no other object.\<close>

lemma fill_obj_frame:
  "length (snd (fill_obj h a func)) = length h"
  "x \<noteq> a \<Longrightarrow> snd (fill_obj h a func) ! x = h ! x"
  by (simp_all add: fill_obj_def split: prod.splits)

lemma size_m_shape: "m \<noteq> [] \<Longrightarrow> size_m m = Inr (shape m)"
  by (cases m) (simp_all add: size_m_def columns_def py_index_def rows_def shape_def)

text \<open>
  \<open>iadd\<close> changes the contents of no object but its first operand, whatever the
  outcome.
\<close>

lemma iadd_frame:
  "length (snd (iadd h a b)) = length h"
  "x \<noteq> a \<Longrightarrow> snd (iadd h a b) ! x = h ! x"
proof -
  let ?f = "\<lambda>s r c. case getitem (s ! a) (int r) (int c) of Inl e \<Rightarrow> Inl e
                 | Inr x \<Rightarrow> (case getitem (s ! b) (int r) (int c) of Inl e \<Rightarrow> Inl e
                              | Inr y \<Rightarrow> Inr (x + y))"
  have "snd (iadd h a b) = h \<or> snd (iadd h a b) = snd (fill_obj h a ?f)"
    by (simp add: iadd_def split: sum.splits prod.splits option.splits)
  then show "length (snd (iadd h a b)) = length h"
    and "x \<noteq> a \<Longrightarrow> snd (iadd h a b) ! x = h ! x"
    by (auto simp: fill_obj_frame)
qed

text \<open>
  \<open>copy_obj\<close> creates one object, at the end of the store, and changes no other; the
  object it returns is that one.
\<close>

lemma copy_obj_frame:
  "x < length h \<Longrightarrow> snd (copy_obj h a) ! x = h ! x"
  "fst (copy_obj h a) = Inr new \<Longrightarrow> new = length h \<and> length (snd (copy_obj h a)) = Suc (length h)"
proof -
  show "snd (copy_obj h a) ! x = h ! x" if "x < length h"
  proof (cases "size_m (h ! a)")
    case (Inl e)
    then show ?thesis by (simp add: copy_obj_def)
  next
    case (Inr rc)
    obtain r c where rc: "rc = (r, c)" by (cases rc)
    let ?h1 = "h @ [raw (replicate (nat (int r)) (replicate (nat (int c)) 0))]"
    let ?f = "\<lambda>s r c. getitem (s ! a) (int r) (int c)"
    have "snd (copy_obj h a) = snd (fill_obj ?h1 (length h) ?f)"
      using Inr rc by (simp add: copy_obj_def zero_obj_def raw_obj_def split: prod.splits option.splits)
    moreover have "snd (fill_obj ?h1 (length h) ?f) ! x = ?h1 ! x"
      using that by (intro fill_obj_frame) simp
    ultimately show ?thesis
      using that by (simp add: nth_append)
  qed
  show "new = length h \<and> length (snd (copy_obj h a)) = Suc (length h)"
    if "fst (copy_obj h a) = Inr new"
  proof (cases "size_m (h ! a)")
    case (Inl e)
    with that show ?thesis by (simp add: copy_obj_def)
  next
    case (Inr rc)
    obtain r c where rc: "rc = (r, c)" by (cases rc)
    let ?h1 = "h @ [raw (replicate (nat (int r)) (replicate (nat (int c)) 0))]"
    let ?f = "\<lambda>s r c. getitem (s ! a) (int r) (int c)"
    have "snd (copy_obj h a) = snd (fill_obj ?h1 (length h) ?f)"
      using Inr rc by (simp add: copy_obj_def zero_obj_def raw_obj_def split: prod.splits option.splits)
    moreover have "new = length h"
      using that Inr rc
      by (auto simp: copy_obj_def zero_obj_def raw_obj_def split: prod.splits option.splits)
    ultimately show ?thesis
      by (simp add: fill_obj_frame)
  qed
qed

lemma add_frame:
  assumes "x < length h"
  shows "snd (add h a b) ! x = h ! x"
proof -
  obtain res h1 where c: "copy_obj h a = (res, h1)"
    by (cases "copy_obj h a")
  from copy_obj_frame(1) [OF assms, of a] c have h1: "h1 ! x = h ! x"
    by simp
  show ?thesis
  proof (cases res)
    case (Inl e)
    with c h1 show ?thesis by (simp add: add_def)
  next
    case (Inr new)
    with copy_obj_frame(2) [of h a new] c assms have "x \<noteq> new"
      by simp
    with iadd_frame(2) [of x new h1 b] h1 c Inr show ?thesis
      by (simp add: add_def)
  qed
qed

lemma add_fresh:
  assumes "fst (add h a b) = Inr c"
  shows "c = length h"
proof -
  obtain res h1 where cp: "copy_obj h a = (res, h1)"
    by (cases "copy_obj h a")
  show ?thesis
  proof (cases res)
    case (Inl e)
    with cp assms show ?thesis by (simp add: add_def)
  next
    case (Inr new)
    with cp assms have "fst (iadd h1 new b) = Inr c"
      by (simp add: add_def)
    then have "c = new"
      by (auto simp: iadd_def split: sum.splits prod.splits option.splits if_splits)
    with copy_obj_frame(2) [of h a new] cp Inr show ?thesis by simp
  qed
qed

lemma iadd_ValueError:
  assumes "h ! a \<noteq> []" and "h ! b \<noteq> []"
  shows "fst (iadd h a b) = Inl ValueError \<longleftrightarrow> shape (h ! a) \<noteq> shape (h ! b)"
proof (cases "shape (h ! a) = shape (h ! b)")
  case False
  then show ?thesis
    by (simp add: iadd_def size_m_shape assms)
next
  case True
  let ?f = "\<lambda>s r c. case getitem (s ! a) (int r) (int c) of Inl e \<Rightarrow> Inl e
                 | Inr x \<Rightarrow> (case getitem (s ! b) (int r) (int c) of Inl e \<Rightarrow> Inl e
                              | Inr y \<Rightarrow> Inr (x + y))"
  have f: "?f s r c = Inl e \<Longrightarrow> e = IndexError" for s r c e
    by (auto split: sum.splits dest: getitem_error)
  have "fst (fill_obj h a ?f) \<noteq> Some ValueError"
    using fill_obj_error [of ?f h a ValueError] f by blast
  then have "fst (iadd h a b) \<noteq> Inl ValueError"
    using True by (auto simp: iadd_def size_m_shape assms split: prod.splits option.splits)
  with True show ?thesis by simp
qed

lemma iadd_ValueError_unchanged: "fst (iadd h a b) = Inl ValueError \<Longrightarrow> snd (iadd h a b) = h"
proof -
  let ?f = "\<lambda>s r c. case getitem (s ! a) (int r) (int c) of Inl e \<Rightarrow> Inl e
                 | Inr x \<Rightarrow> (case getitem (s ! b) (int r) (int c) of Inl e \<Rightarrow> Inl e
                              | Inr y \<Rightarrow> Inr (x + y))"
  have f: "?f s r c = Inl e \<Longrightarrow> e = IndexError" for s r c e
    by (auto split: sum.splits dest: getitem_error)
  have nv: "fst (fill_obj h a ?f) \<noteq> Some ValueError"
    using fill_obj_error [of ?f h a ValueError] f by blast
  assume "fst (iadd h a b) = Inl ValueError"
  with nv show ?thesis
    by (auto simp: iadd_def split: sum.splits prod.splits option.splits if_splits)
qed

text \<open>
  For two objects \<open>a\<close> and \<open>b\<close> of the store, each with at least one row: \<open>iadd\<close>
  raises \<open>ValueError\<close> exactly when their shapes differ, and then the store is
  unchanged, since the check comes before any write. Whatever the outcome, \<open>add\<close>
  leaves the contents of every object of the store as they were, among them both
  operands; the object it returns is a new one, the copy it made.
\<close>

lemma iadd_checks_shape_add_keeps_operands:
  assumes "a < length h" and "b < length h" and "h ! a \<noteq> []" and "h ! b \<noteq> []"
  shows "(fst (iadd h a b) = Inl ValueError \<longleftrightarrow> shape (h ! a) \<noteq> shape (h ! b)) \<and>
         (fst (iadd h a b) = Inl ValueError \<longrightarrow> snd (iadd h a b) = h) \<and>
         (\<forall>x < length h. snd (add h a b) ! x = h ! x) \<and>
         (\<forall>c. fst (add h a b) = Inr c \<longrightarrow> c = length h)"
proof (intro conjI allI impI)
  show "fst (iadd h a b) = Inl ValueError \<longleftrightarrow> shape (h ! a) \<noteq> shape (h ! b)"
    using assms(3,4) by (rule iadd_ValueError)
next
  assume "fst (iadd h a b) = Inl ValueError"
  then show "snd (iadd h a b) = h"
    by (rule iadd_ValueError_unchanged)
next
  fix x assume "x < length h"
  then show "snd (add h a b) ! x = h ! x"
    by (rule add_frame)
next
  fix c assume "fst (add h a b) = Inr c"
  then show "c = length h"
    by (rule add_fresh)
qed

lemma iadd_checks_shape_add_keeps_operands_example:
  "shape [[1, 2], [3, 4]] \<noteq> shape [[1, 2, 3]] \<and>
   iadd [[[1, 2], [3, 4]], [[1, 2, 3]]] 0 1 = (Inl ValueError, [[[1, 2], [3, 4]], [[1, 2, 3]]]) \<and>
   shape [[1, 2], [3, 4]] = shape [[5, 6], [7, 8]] \<and>
   fst (iadd [[[1, 2], [3, 4]], [[5, 6], [7, 8]]] 0 1) \<noteq> Inl ValueError \<and>
   fst (add [[[1, 2], [3, 4]], [[5, 6], [7, 8]]] 0 1) = Inr 2 \<and>
   snd (add [[[1, 2], [3, 4]], [[5, 6], [7, 8]]] 0 1) ! 0 = [[1, 2], [3, 4]] \<and>
   snd (add [[[1, 2], [3, 4]], [[5, 6], [7, 8]]] 0 1) ! 1 = [[5, 6], [7, 8]] \<and>
   snd (add [[[1, 2], [3, 4]], [[5, 6], [7, 8]]] 0 1) ! 2 = [[6, 8], [10, 12]]"
proof -
  let ?A = "[[1, 2], [3, 4 :: rat]]" and ?B = "[[1, 2, 3 :: rat]]" and ?C = "[[5, 6], [7, 8 :: rat]]"
  have s1: "shape ?A \<noteq> shape ?B" and s2: "shape ?A = shape ?C"
    by (simp_all add: shape_def)
  have t1: "(fst (iadd [?A, ?B] 0 1) = Inl ValueError \<longleftrightarrow> shape ([?A, ?B] ! 0) \<noteq> shape ([?A, ?B] ! 1)) \<and>
         (fst (iadd [?A, ?B] 0 1) = Inl ValueError \<longrightarrow> snd (iadd [?A, ?B] 0 1) = [?A, ?B])"
    using iadd_checks_shape_add_keeps_operands [of 0 "[?A, ?B]" 1] by simp
  with s1 have "fst (iadd [?A, ?B] 0 1) = Inl ValueError" "snd (iadd [?A, ?B] 0 1) = [?A, ?B]"
    by simp_all
  then have r1: "iadd [?A, ?B] 0 1 = (Inl ValueError, [?A, ?B])"
    by (simp add: prod_eq_iff)
  have t2: "(fst (iadd [?A, ?C] 0 1) = Inl ValueError \<longleftrightarrow> shape ([?A, ?C] ! 0) \<noteq> shape ([?A, ?C] ! 1)) \<and>
         (\<forall>x < length [?A, ?C]. snd (add [?A, ?C] 0 1) ! x = [?A, ?C] ! x) \<and>
         (\<forall>c. fst (add [?A, ?C] 0 1) = Inr c \<longrightarrow> c = length [?A, ?C])"
    using iadd_checks_shape_add_keeps_operands [of 0 "[?A, ?C]" 1] by simp
  with s2 have r2: "fst (iadd [?A, ?C] 0 1) \<noteq> Inl ValueError"
    by simp
  from t2 have r3: "snd (add [?A, ?C] 0 1) ! 0 = ?A" "snd (add [?A, ?C] 0 1) ! 1 = ?C"
    by simp_all
  have r4: "fst (add [?A, ?C] 0 1) = Inr 2" "snd (add [?A, ?C] 0 1) ! 2 = [[6, 8], [10, 12]]"
    by code_simp+
  from s1 r1 s2 r2 r3 r4 show ?thesis
    by blast
qed

text \<open>
  C9. The empty matrix, whose shape the specification gives as \<open>(0, 0)\<close>, and a 1x1
  matrix have different shapes, and \<open>iadd\<close> on them raises \<open>IndexError\<close>, not
  \<open>ValueError\<close>: \<^verbatim>\<open>self.size\<close> reads \<^verbatim>\<open>self.columns\<close>, which raises on the empty
  \<^verbatim>\<open>_list\<close> before the shapes are compared. With another empty matrix the shapes
  are equal and it raises too. The store is unchanged in both cases.
\<close>

theorem iadd_empty_raises_IndexError:
  "shape [] \<noteq> shape [[1]] \<and> iadd [[], [[1]]] 0 1 = (Inl IndexError, [[], [[1]]]) \<and>
   iadd [[], []] 0 1 = (Inl IndexError, [[], []])"
  by code_simp

text \<open>
  The two descriptions of \<^verbatim>\<open>copy\<close> agree: when the copy of the contents of \<open>a\<close> is
  the matrix \<open>m'\<close>, \<open>copy_obj\<close> returns a new object with the contents \<open>m'\<close> and
  leaves the rest of the store as it was.
\<close>

lemma copy_obj_copy:
  assumes "a < length h" and "copy (h ! a) = Inr m'"
  shows "copy_obj h a = (Inr (length h), h @ [m'])"
proof -
  from assms(2) obtain r c where sz: "size_m (h ! a) = Inr (r, c)"
    by (auto simp: copy_def split: sum.splits)
  let ?z = "zero_m (int r) (int c)"
  let ?h1 = "h @ [?z]"
  have rd: "(\<lambda>self s r c. getitem (s ! a) (int r) (int c)) self (?h1[length h := self])
              = (\<lambda>r c. getitem (h ! a) (int r) (int c))" for self
    using assms(1) by (simp add: nth_append)
  from assms(2) sz have f: "fill ?z (\<lambda>_ r c. getitem (h ! a) (int r) (int c)) = (None, m')"
    by (auto simp: copy_def returned_def split: prod.splits option.splits)
  have "fill_obj ?h1 (length h) (\<lambda>s r c. getitem (s ! a) (int r) (int c)) = (None, h @ [m'])"
    using rd f by (simp add: fill_obj_def)
  then show ?thesis
    using sz by (simp add: copy_obj_def zero_obj_def raw_obj_def zero_m_def raw_def)
qed

end
